theory Spec2Isabelle
  imports
    Main
    "HOL-Library.Word"
    "HOL-Library.AList"
    "HOL-Library.Log_Nat"
    "HOL-Library.Char_ord"
    "HOL-Library.List_Lexorder"
    "HOL-Library.Product_Lexorder"
begin

section \<open>The Redis results store of Tasqueue (results/redis/results.go)\<close>

text \<open>
  The package keeps one byte record per job under the key \<^verbatim>\<open>"tq:res:" + id\<close> and two
  sorted sets of job ids, under \<^verbatim>\<open>"tq:res:success"\<close> and \<^verbatim>\<open>"tq:res:failed"\<close>, scored
  by the time of the outcome. It talks to a Redis server through a client
  (\<^verbatim>\<open>r.conn\<close>) and, when \<^verbatim>\<open>PipePeriod\<close> is not zero, through a shared pipeline
  (\<^verbatim>\<open>r.pipe\<close>) that a background loop executes on a ticker.

  The server is not part of the package. It is modelled here by the usual meaning of
  the seven commands the package sends (GET, SET, DEL, ZADD, ZREM, ZREVRANGEBYSCORE,
  ZREMRANGEBYSCORE) on a map from keys to values; what the package itself does is
  translated function by function from results.go.
\<close>

subsection \<open>Constants\<close>

definition resultPrefix :: string where
  "resultPrefix = ''tq:res:''"

definition success :: string where
  "success = ''success''"

definition failed :: string where
  "failed = ''failed''"

subsection \<open>Scores: \<^verbatim>\<open>float64(int64)\<close>\<close>

text \<open>
  A sorted-set score is a double. Every score the package writes is
  \<^verbatim>\<open>float64(time.Now().UnixNano())\<close>, the conversion of an int64, and every bound it
  sends is the decimal string of an int64, which the server reads as a double. Both
  round the integer to the nearest double, ties to even, and the result is again an
  integer: a double has 53 bits of mantissa, so an integer of \<open>53 + e\<close> bits is rounded
  to a multiple of \<open>2 ^ e\<close>. Scores are therefore modelled as the integers they denote.
\<close>

definition float64 :: "int \<Rightarrow> int" where
  "float64 n =
     (let a = \<bar>n\<bar>;
          e = nat (bitlen a - 53);
          q = a div 2 ^ e;
          r = a mod 2 ^ e;
          q' = (if e = 0 then q
                else if 2 ^ (e - 1) < r \<or> (r = 2 ^ (e - 1) \<and> odd q) then q + 1
                else q)
      in sgn n * (q' * 2 ^ e))"

subsection \<open>The server: keys, values and commands\<close>

type_synonym bytes = "8 word list"

text \<open>
  A key holds a string, with the instant at which it expires if it has one, or a
  sorted set: members with their scores. No command of the package gives a sorted set
  an expiry, so the type has none there.
\<close>

datatype rvalue =
    RString bytes "int option"
  | RZSet "(string \<times> int) list"

type_synonym rstore = "string \<rightharpoonup> rvalue"

text \<open>
  \<open>RedisNil\<close> is \<^verbatim>\<open>redis.Nil\<close>, the reply to GET on a key that is not there;
  \<open>WrongType\<close> is the server's WRONGTYPE error; \<open>Transport\<close> stands for every failure
  of the round trip itself (connection, timeout, cancelled context).
\<close>

datatype rerror = RedisNil | WrongType | Transport string

text \<open>
  The write commands, with the arguments the client puts on the wire. A bound of
  ZREMRANGEBYSCORE travels as a decimal string: it is kept as the integer the string
  denotes. SET carries its expiry as the option the client sends: none, PX (\<open>PXms\<close>)
  with a number of milliseconds, EX (\<open>EXsec\<close>) with a number of seconds, or KEEPTTL.
\<close>

datatype expiry = NoExpiry | PXms int | EXsec int | KeepTTL

datatype command =
    ZAdd string int string
  | ZRem string "string list"
  | ZRemRangeByScore string int int
  | Del "string list"
  | SetCmd string bytes expiry

text \<open>A key whose expiry has passed is gone for every command.\<close>

definition lookup :: "int \<Rightarrow> rstore \<Rightarrow> string \<Rightarrow> rvalue option" where
  "lookup t st k =
     (case st k of
        Some (RString b (Some d)) \<Rightarrow> if d \<le> t then None else Some (RString b (Some d))
      | v \<Rightarrow> v)"

text \<open>The server removes a sorted set that has become empty.\<close>

definition put_zset :: "rstore \<Rightarrow> string \<Rightarrow> (string \<times> int) list \<Rightarrow> rstore" where
  "put_zset st k zs = (if zs = [] then st(k := None) else st(k \<mapsto> RZSet zs))"

text \<open>
  The expiry instant SET gives the string, at server time \<open>t\<close> (in nanoseconds, as all
  instants here): PX and EX count from \<open>t\<close>; KEEPTTL keeps the expiry of the string
  the key holds, if it holds one that has not expired; without option there is none.
\<close>

fun set_deadline :: "int \<Rightarrow> expiry \<Rightarrow> rvalue option \<Rightarrow> int option" where
  "set_deadline t NoExpiry old = None"
| "set_deadline t (PXms ms) old = Some (t + ms * 1000000)"
| "set_deadline t (EXsec s) old = Some (t + s * 1000000000)"
| "set_deadline t KeepTTL old = (case old of Some (RString _ d) \<Rightarrow> d | _ \<Rightarrow> None)"

text \<open>
  One command at server time \<open>t\<close>: the error it replies with, if any, and the store
  after it. ZADD sets the score of a member that is there and adds one that is not;
  SET replaces whatever the key held.
\<close>

fun exec_cmd :: "int \<Rightarrow> command \<Rightarrow> rstore \<Rightarrow> rerror option \<times> rstore" where
  "exec_cmd t (ZAdd k s m) st =
     (case lookup t st k of
        None \<Rightarrow> (None, st(k \<mapsto> RZSet [(m, s)]))
      | Some (RZSet zs) \<Rightarrow> (None, st(k \<mapsto> RZSet (AList.update m s zs)))
      | Some (RString _ _) \<Rightarrow> (Some WrongType, st))"
| "exec_cmd t (ZRem k ms) st =
     (case lookup t st k of
        None \<Rightarrow> (None, st)
      | Some (RZSet zs) \<Rightarrow> (None, put_zset st k (filter (\<lambda>(m, s). m \<notin> set ms) zs))
      | Some (RString _ _) \<Rightarrow> (Some WrongType, st))"
| "exec_cmd t (ZRemRangeByScore k mn mx) st =
     (case lookup t st k of
        None \<Rightarrow> (None, st)
      | Some (RZSet zs) \<Rightarrow>
          (None, put_zset st k
             (filter (\<lambda>(m, s). \<not> (float64 mn \<le> s \<and> s \<le> float64 mx)) zs))
      | Some (RString _ _) \<Rightarrow> (Some WrongType, st))"
| "exec_cmd t (Del ks) st = (None, (\<lambda>k. if k \<in> set ks then None else st k))"
| "exec_cmd t (SetCmd k b e) st =
     (None, st(k \<mapsto> RString b (set_deadline t e (lookup t st k))))"

text \<open>
  A batch runs its commands in order, each on the store the previous one left, and a
  command that fails does not stop the ones after it. The errors come back in order.
\<close>

fun exec_cmds :: "int \<Rightarrow> command list \<Rightarrow> rstore \<Rightarrow> rerror list \<times> rstore" where
  "exec_cmds t [] st = ([], st)"
| "exec_cmds t (c # cs) st =
     (case exec_cmd t c st of
        (e, st') \<Rightarrow>
          (case exec_cmds t cs st' of
             (es, st'') \<Rightarrow> ((case e of None \<Rightarrow> es | Some x \<Rightarrow> x # es), st'')))"

subsection \<open>The client\<close>

text \<open>
  Every round trip either fails as a whole, with a transport error and no effect on
  the store, or reaches the server. Which of the two happens is the environment's
  choice: the argument \<open>net\<close>.
\<close>

text \<open>
  What the client's \<^verbatim>\<open>Set(ctx, key, value, expiration)\<close> makes of its duration, an
  int64 of nanoseconds. A positive duration goes out as PX, in whole milliseconds,
  when it is below a second or not a whole number of seconds, and as EX, in whole
  seconds, otherwise; what is left after the division is dropped, and a duration
  below one unit counts as one. The duration \<open>-1\<close> is the client's \<^verbatim>\<open>KeepTTL\<close>. Zero
  and every other negative duration send no option. (Go's division truncates
  towards zero; it is applied to positive durations only.)
\<close>

definition usePrecise :: "int \<Rightarrow> bool" where
  "usePrecise d = (d < 1000000000 \<or> d mod 1000000000 \<noteq> 0)"

definition formatMs :: "int \<Rightarrow> int" where
  "formatMs d = (if 0 < d \<and> d < 1000000 then 1 else d div 1000000)"

definition formatSec :: "int \<Rightarrow> int" where
  "formatSec d = (if 0 < d \<and> d < 1000000000 then 1 else d div 1000000000)"

definition set_expiry :: "64 word \<Rightarrow> expiry" where
  "set_expiry expiration =
     (let d = sint expiration
      in if 0 < d then (if usePrecise d then PXms (formatMs d) else EXsec (formatSec d))
         else if d = - 1 then KeepTTL
         else NoExpiry)"

definition conn_do :: "string option \<Rightarrow> int \<Rightarrow> command \<Rightarrow> rstore \<Rightarrow> rerror option \<times> rstore" where
  "conn_do net t c st =
     (case net of Some msg \<Rightarrow> (Some (Transport msg), st) | None \<Rightarrow> exec_cmd t c st)"

definition conn_Get :: "string option \<Rightarrow> int \<Rightarrow> string \<Rightarrow> rstore \<Rightarrow> rerror + bytes" where
  "conn_Get net t k st =
     (case net of
        Some msg \<Rightarrow> Inl (Transport msg)
      | None \<Rightarrow>
          (case lookup t st k of
             None \<Rightarrow> Inl RedisNil
           | Some (RString b _) \<Rightarrow> Inr b
           | Some (RZSet _) \<Rightarrow> Inl WrongType))"

text \<open>
  ZREVRANGEBYSCORE: the members whose score lies between the two bounds, both
  included, from the highest score down; members of one score come in descending
  byte order.
\<close>

definition zrevrange :: "int \<Rightarrow> int \<Rightarrow> (string \<times> int) list \<Rightarrow> (string \<times> int) list" where
  "zrevrange mn mx zs =
     rev (sort_key (\<lambda>(m, s). (s, m))
            (filter (\<lambda>(m, s). float64 mn \<le> s \<and> s \<le> float64 mx) zs))"

definition conn_ZRevRangeByScore ::
  "string option \<Rightarrow> int \<Rightarrow> string \<Rightarrow> int \<Rightarrow> int \<Rightarrow> rstore \<Rightarrow> rerror + string list" where
  "conn_ZRevRangeByScore net t k mn mx st =
     (case net of
        Some msg \<Rightarrow> Inl (Transport msg)
      | None \<Rightarrow>
          (case lookup t st k of
             None \<Rightarrow> Inr []
           | Some (RZSet zs) \<Rightarrow> Inr (map fst (zrevrange mn mx zs))
           | Some (RString _ _) \<Rightarrow> Inl WrongType))"

text \<open>
  \<^verbatim>\<open>Pipeline.Exec\<close>: nothing is sent for an empty queue; otherwise the whole queue is
  one round trip, and the error returned is the first one among the commands.
\<close>

definition pipe_Exec ::
  "string option \<Rightarrow> int \<Rightarrow> command list \<Rightarrow> rstore \<Rightarrow> rerror option \<times> rstore" where
  "pipe_Exec net t cs st =
     (if cs = [] then (None, st)
      else case net of
        Some msg \<Rightarrow> (Some (Transport msg), st)
      | None \<Rightarrow>
          (case exec_cmds t cs st of
             (es, st') \<Rightarrow> ((case es of [] \<Rightarrow> None | e # _ \<Rightarrow> Some e), st')))"

subsection \<open>\<^verbatim>\<open>Options\<close> and \<^verbatim>\<open>Results\<close>\<close>

text \<open>
  Of \<^verbatim>\<open>Options\<close>, the three durations the package itself reads; the other fields are
  handed to the client unchanged.
\<close>

record options =
  Expiry :: "64 word"
  MetaExpiry :: "64 word"
  PipePeriod :: "64 word"

datatype goroutine = ExpireMeta "64 word" | ExecPipe

text \<open>
  \<open>conn\<close> is the store behind \<^verbatim>\<open>r.conn\<close>, \<open>pipe\<close> the queue of \<^verbatim>\<open>r.pipe\<close>, \<open>lo\<close> the
  error records written to the logger. Two fields are there for the specification
  only: \<open>trips\<close>, the write round trips attempted so far, each with the commands it
  carried, and \<open>spawned\<close>, the goroutines \<^verbatim>\<open>New\<close> started.
\<close>

record results =
  opts :: options
  conn :: rstore
  pipe :: "command list"
  lo :: "(string \<times> rerror) list"
  trips :: "command list list"
  spawned :: "goroutine list"

definition New :: "options \<Rightarrow> rstore \<Rightarrow> results" where
  "New ops st =
     \<lparr>opts = ops, conn = st, pipe = [], lo = [], trips = [],
      spawned = (if MetaExpiry ops \<noteq> 0 then [ExpireMeta (MetaExpiry ops)] else []) @
                (if PipePeriod ops \<noteq> 0 then [ExecPipe] else [])\<rparr>"

subsection \<open>The operations of \<^verbatim>\<open>Results\<close>\<close>

text \<open>
  Each operation takes what it reads from the outside: \<open>net\<close>, the fate of its round
  trip, and \<open>now\<close>, the int64 of \<^verbatim>\<open>time.Now().UnixNano()\<close> at the call, which is also
  the server's clock for expiry. It returns its Go result and the \<^verbatim>\<open>Results\<close> after it.

  \<^verbatim>\<open>DeleteJob\<close> queues three commands on a pipeline of its own and executes it. A
  command queued on a pipeline has no error before \<^verbatim>\<open>Exec\<close>, so none of the three
  early returns is taken. \<^verbatim>\<open>ZRem(ctx, key, 1, id)\<close> passes two members, the integer 1
  (the string "1" on the wire) and the id.
\<close>

definition DeleteJob ::
  "string option \<Rightarrow> 64 word \<Rightarrow> results \<Rightarrow> string \<Rightarrow> rerror option \<times> results" where
  "DeleteJob net now r jid =
     (let cmds = [ZRem (resultPrefix @ success) [''1'', jid],
                  ZRem (resultPrefix @ failed) [''1'', jid],
                  Del [resultPrefix @ jid]]
      in case pipe_Exec net (sint now) cmds (conn r) of
           (err, st) \<Rightarrow> (err, r\<lparr>conn := st, trips := trips r @ [cmds]\<rparr>))"

definition GetSuccess :: "string option \<Rightarrow> 64 word \<Rightarrow> results \<Rightarrow> rerror + string list" where
  "GetSuccess net now r =
     conn_ZRevRangeByScore net (sint now) (resultPrefix @ success) 0 (sint now) (conn r)"

definition GetFailed :: "string option \<Rightarrow> 64 word \<Rightarrow> results \<Rightarrow> rerror + string list" where
  "GetFailed net now r =
     conn_ZRevRangeByScore net (sint now) (resultPrefix @ failed) 0 (sint now) (conn r)"

definition SetSuccess ::
  "string option \<Rightarrow> 64 word \<Rightarrow> results \<Rightarrow> string \<Rightarrow> rerror option \<times> results" where
  "SetSuccess net now r jid =
     (let c = ZAdd (resultPrefix @ success) (float64 (sint now)) jid
      in if PipePeriod (opts r) \<noteq> 0 then (None, r\<lparr>pipe := pipe r @ [c]\<rparr>)
         else case conn_do net (sint now) c (conn r) of
                (err, st) \<Rightarrow> (err, r\<lparr>conn := st, trips := trips r @ [[c]]\<rparr>))"

definition SetFailed ::
  "string option \<Rightarrow> 64 word \<Rightarrow> results \<Rightarrow> string \<Rightarrow> rerror option \<times> results" where
  "SetFailed net now r jid =
     (let c = ZAdd (resultPrefix @ failed) (float64 (sint now)) jid
      in if PipePeriod (opts r) \<noteq> 0 then (None, r\<lparr>pipe := pipe r @ [c]\<rparr>)
         else case conn_do net (sint now) c (conn r) of
                (err, st) \<Rightarrow> (err, r\<lparr>conn := st, trips := trips r @ [[c]]\<rparr>))"

definition Set ::
  "string option \<Rightarrow> 64 word \<Rightarrow> results \<Rightarrow> string \<Rightarrow> bytes \<Rightarrow> rerror option \<times> results" where
  "Set net now r jid b =
     (let c = SetCmd (resultPrefix @ jid) b (set_expiry (Expiry (opts r)))
      in if PipePeriod (opts r) \<noteq> 0 then (None, r\<lparr>pipe := pipe r @ [c]\<rparr>)
         else case conn_do net (sint now) c (conn r) of
                (err, st) \<Rightarrow> (err, r\<lparr>conn := st, trips := trips r @ [[c]]\<rparr>))"

definition Get :: "string option \<Rightarrow> 64 word \<Rightarrow> results \<Rightarrow> string \<Rightarrow> rerror + bytes" where
  "Get net now r jid = conn_Get net (sint now) (resultPrefix @ jid) (conn r)"

definition NilError :: "results \<Rightarrow> rerror" where
  "NilError r = RedisNil"

subsection \<open>The two background loops\<close>

text \<open>
  A loop is run on the events its \<^verbatim>\<open>select\<close> receives, in the order the environment
  delivers them. It ends in one of three ways: \<^verbatim>\<open>time.NewTicker\<close> panics on a
  duration that is not positive; the loop is still waiting when the events are used
  up; or it has returned. A tick of the flusher carries the fate of its round trip
  and the time at which it is served.
\<close>

datatype outcome = Panicked | Waiting results | Returned results

definition log_err :: "string \<Rightarrow> rerror option \<Rightarrow> (string \<times> rerror) list" where
  "log_err msg e = (case e of None \<Rightarrow> [] | Some x \<Rightarrow> [(msg, x)])"

text \<open>
  \<^verbatim>\<open>r.pipe.Exec\<close> with the error logged. The queue is empty afterwards whatever the
  result; a round trip is attempted exactly when the queue was not empty.
\<close>

definition execPipe_exec :: "string option \<Rightarrow> 64 word \<Rightarrow> results \<Rightarrow> results" where
  "execPipe_exec net now r =
     (case pipe_Exec net (sint now) (pipe r) (conn r) of
        (err, st) \<Rightarrow>
          r\<lparr>conn := st, pipe := [],
            lo := lo r @ log_err ''could not execute redis pipe'' err,
            trips := trips r @ (if pipe r = [] then [] else [pipe r])\<rparr>)"

text \<open>
  \<^verbatim>\<open>r.pipe.Exec(ctx)\<close> in the branch of \<^verbatim>\<open>ctx.Done()\<close>: the context handed to \<^verbatim>\<open>Exec\<close>
  is the one that has just been cancelled. For an empty queue \<^verbatim>\<open>Exec\<close> returns at
  once. Otherwise it takes the commands out of the queue and the client gives up
  with the error of the context before it sends anything: the store is not
  touched, the commands are gone and the error is logged.
\<close>

definition execPipe_drain :: "results \<Rightarrow> results" where
  "execPipe_drain r =
     (if pipe r = [] then r
      else r\<lparr>pipe := [],
             lo := lo r @ [(''could not execute redis pipe'', Transport ''context canceled'')]\<rparr>)"

datatype event = Done | Tick "string option" "64 word"

fun execPipe_loop :: "event list \<Rightarrow> results \<Rightarrow> outcome" where
  "execPipe_loop [] r = Waiting r"
| "execPipe_loop (Done # evs) r = Returned (execPipe_drain r)"
| "execPipe_loop (Tick net now # evs) r =
     (if length (pipe r) = 0 then execPipe_loop evs r
      else execPipe_loop evs (execPipe_exec net now r))"

definition execPipe :: "event list \<Rightarrow> results \<Rightarrow> outcome" where
  "execPipe evs r =
     (if sint (PipePeriod (opts r)) \<le> 0 then Panicked else execPipe_loop evs r)"

fun is_Tick :: "event \<Rightarrow> bool" where
  "is_Tick (Tick _ _) = True"
| "is_Tick Done = False"

text \<open>
  One tick of the purger: \<open>now - ttl\<close> is an int64 subtraction. Without the pipeline
  the two removals are two round trips, \<open>net1\<close> and \<open>net2\<close>; with it they are queued,
  and a queued command has no error to log.
\<close>

definition expireMeta_tick ::
  "string option \<Rightarrow> string option \<Rightarrow> 64 word \<Rightarrow> 64 word \<Rightarrow> results \<Rightarrow> results" where
  "expireMeta_tick net1 net2 now ttl r =
     (let score = sint (now - ttl);
          c1 = ZRemRangeByScore (resultPrefix @ failed) 0 score;
          c2 = ZRemRangeByScore (resultPrefix @ success) 0 score
      in if PipePeriod (opts r) \<noteq> 0 then r\<lparr>pipe := pipe r @ [c1, c2]\<rparr>
         else case conn_do net1 (sint now) c1 (conn r) of
                (e1, st1) \<Rightarrow>
                  (case conn_do net2 (sint now) c2 st1 of
                     (e2, st2) \<Rightarrow>
                       r\<lparr>conn := st2,
                         lo := lo r @ log_err ''could not expire success/failed metadata'' e1
                                    @ log_err ''could not expire success/failed metadata'' e2,
                         trips := trips r @ [[c1], [c2]]\<rparr>))"

text \<open>
  \<^verbatim>\<open>time.NewTicker(d)\<close> panics when \<open>d\<close> is not positive. Otherwise the ticker has the
  period \<open>d\<close>: created at the instant \<open>start\<close>, its ticks are due at \<open>start + j * d\<close> for
  \<open>j = 1, 2, ...\<close>.
\<close>

datatype ticker = Ticker (period: int)

definition NewTicker :: "64 word \<Rightarrow> ticker option" where
  "NewTicker d = (if sint d \<le> 0 then None else Some (Ticker (sint d)))"

text \<open>
  The purger receives ticks of its ticker only. What the environment chooses for a
  tick it receives is the fate of the two round trips, how many ticks were dropped
  before it because the loop was not ready for them, and how long after the tick
  was due the loop reads the clock. \<open>j\<close> numbers the tick received last, and
  \<open>tick_no\<close> counts the ticks that have passed in a list of events.
\<close>

type_synonym ptick = "string option \<times> string option \<times> nat \<times> nat"

fun expireMeta_loop ::
  "ticker \<Rightarrow> int \<Rightarrow> nat \<Rightarrow> 64 word \<Rightarrow> ptick list \<Rightarrow> results \<Rightarrow> results" where
  "expireMeta_loop tk start j ttl [] r = r"
| "expireMeta_loop tk start j ttl ((net1, net2, dropped, lag) # evs) r =
     expireMeta_loop tk start (j + dropped + 1) ttl evs
       (expireMeta_tick net1 net2
          (word_of_int (start + int (j + dropped + 1) * period tk + int lag)) ttl r)"

definition expireMeta :: "64 word \<Rightarrow> int \<Rightarrow> ptick list \<Rightarrow> results \<Rightarrow> outcome" where
  "expireMeta ttl start evs r =
     (case NewTicker ttl of
        None \<Rightarrow> Panicked
      | Some tk \<Rightarrow> Waiting (expireMeta_loop tk start 0 ttl evs r))"

fun tick_no :: "ptick list \<Rightarrow> nat" where
  "tick_no [] = 0"
| "tick_no ((net1, net2, dropped, lag) # evs) = dropped + 1 + tick_no evs"

subsection \<open>Reading the store\<close>

text \<open>The entries of the sorted set at a key, none if the key holds no sorted set.\<close>

definition zset_of :: "int \<Rightarrow> rstore \<Rightarrow> string \<Rightarrow> (string \<times> int) list" where
  "zset_of t st k = (case lookup t st k of Some (RZSet zs) \<Rightarrow> zs | _ \<Rightarrow> [])"

definition zscore :: "int \<Rightarrow> rstore \<Rightarrow> string \<Rightarrow> string \<Rightarrow> int option" where
  "zscore t st k m = map_of (zset_of t st k) m"

text \<open>
  In the server a member is in a sorted set once. A store is well formed when the
  list of every sorted set has each member once; the commands keep it that way.
\<close>

definition wf_store :: "rstore \<Rightarrow> bool" where
  "wf_store st = (\<forall>k. distinct (map fst (zset_of 0 st k)))"

subsection \<open>What may happen between two calls\<close>



subsection \<open>States used as examples\<close>

text \<open>
  A store with three successful jobs, written without the pipeline, and a
  \<^verbatim>\<open>Results\<close> with the pipeline on and one command waiting in it.
\<close>

definition three_jobs :: results where
  "three_jobs =
     \<lparr>opts = \<lparr>Expiry = 0, MetaExpiry = 0, PipePeriod = 0\<rparr>,
      conn = [''tq:res:success'' \<mapsto>
                RZSet [(''1'', 1024), (''job-2'', 2048), (''job-3'', 4096)]],
      pipe = [], lo = [], trips = [], spawned = []\<rparr>"

definition one_queued :: results where
  "one_queued =
     \<lparr>opts = \<lparr>Expiry = 3600000000000, MetaExpiry = 0, PipePeriod = 1000000000\<rparr>,
      conn = Map.empty, pipe = [ZAdd ''tq:res:success'' 1024 ''job-1''], lo = [],
      trips = [], spawned = [ExecPipe]\<rparr>"




text \<open>
  A new \<^verbatim>\<open>Results\<close> on an empty store, without pipeline and purger; and a store one
  hour after 1 700 000 000 s, with two failed jobs and one successful job.
\<close>

definition fresh_direct :: results where
  "fresh_direct = New \<lparr>Expiry = 0, MetaExpiry = 0, PipePeriod = 0\<rparr> Map.empty"

definition two_ages :: results where
  "two_ages =
     \<lparr>opts = \<lparr>Expiry = 0, MetaExpiry = 3600000000000, PipePeriod = 0\<rparr>,
      conn = [''tq:res:failed'' \<mapsto>
                RZSet [(''job-old'', 1699999999999999744), (''job-new'', 1700001000000000000)],
              ''tq:res:success'' \<mapsto> RZSet [(''job-7'', 1700000000000000000)]],
      pipe = [], lo = [], trips = [], spawned = [ExpireMeta 3600000000000]\<rparr>"

section \<open>Properties\<close>

subsection \<open>Keys and expiry\<close>

lemma lookup_None_iff:
  "lookup t st k = None \<longleftrightarrow>
     st k = None \<or> (\<exists>b d. st k = Some (RString b (Some d)) \<and> d \<le> t)"
  by (auto simp: lookup_def split: option.splits rvalue.splits)

lemma lookup_RZSet_iff [simp]: "lookup t st k = Some (RZSet zs) \<longleftrightarrow> st k = Some (RZSet zs)"
  by (auto simp: lookup_def split: option.splits rvalue.splits)

lemma lookup_upd_same_zset [simp]: "lookup t (st(k \<mapsto> RZSet zs)) k = Some (RZSet zs)"
  by simp

lemma lookup_upd_other [simp]: "k' \<noteq> k \<Longrightarrow> lookup t (st(k := v)) k' = lookup t st k'"
  by (simp add: lookup_def)

lemma resultPrefix_inject [simp]: "resultPrefix @ a = resultPrefix @ b \<longleftrightarrow> a = b"
  by simp

subsection \<open>\<^verbatim>\<open>DeleteJob\<close>: one round trip of its own\<close>


lemma DeleteJob_conn:
  "conn (snd (DeleteJob net now r jid)) =
     (case net of
        Some msg \<Rightarrow> conn r
      | None \<Rightarrow> snd (exec_cmds (sint now)
                  [ZRem (resultPrefix @ success) [''1'', jid],
                   ZRem (resultPrefix @ failed) [''1'', jid],
                   Del [resultPrefix @ jid]] (conn r)))"
  by (simp add: DeleteJob_def Let_def pipe_Exec_def split: prod.splits option.splits)


subsection \<open>\<^verbatim>\<open>Get\<close> and the not-found sentinel\<close>

text \<open>
  C4. \<^verbatim>\<open>Get\<close> returns the sentinel \<^verbatim>\<open>NilError()\<close> exactly when its round trip reaches
  the store and the result key is absent or expired. Every other failure comes back
  as it is: a transport error as that transport error, the server's WRONGTYPE (the
  key holds a sorted set) as WRONGTYPE; neither is the sentinel. A payload comes back
  exactly when the key holds a string that has not expired.
\<close>

theorem Get_not_found_distinguished:
  "(Get net now r jid = Inl (NilError r)) =
     (net = None \<and>
      (conn r (resultPrefix @ jid) = None \<or>
       (\<exists>b d. conn r (resultPrefix @ jid) = Some (RString b (Some d)) \<and> d \<le> sint now)))
   \<and> (Get net now r jid = Inl (Transport msg)) = (net = Some msg)
   \<and> (Get net now r jid = Inl WrongType) =
       (net = None \<and> (\<exists>zs. conn r (resultPrefix @ jid) = Some (RZSet zs)))
   \<and> (Get net now r jid = Inr b) =
       (net = None \<and>
        (\<exists>d. lookup (sint now) (conn r) (resultPrefix @ jid) = Some (RString b d)))
   \<and> Transport msg \<noteq> NilError r \<and> WrongType \<noteq> NilError r"
  by (auto simp: Get_def NilError_def conn_Get_def lookup_def
           split: option.splits rvalue.splits if_splits)

subsection \<open>What a command does to the sorted sets\<close>

lemma zset_of_alt: "zset_of t st k = (case st k of Some (RZSet zs) \<Rightarrow> zs | _ \<Rightarrow> [])"
  by (simp add: zset_of_def lookup_def split: option.splits rvalue.splits)

lemma zset_of_ZRem:
  "zset_of t' (snd (exec_cmd t (ZRem k ms) st)) k' =
     (if k' = k then filter (\<lambda>(m, s). m \<notin> set ms) (zset_of t' st k) else zset_of t' st k')"
  by (auto simp: zset_of_alt lookup_def put_zset_def split: option.splits rvalue.splits)

lemma zset_of_ZRemRangeByScore:
  "zset_of t' (snd (exec_cmd t (ZRemRangeByScore k mn mx) st)) k' =
     (if k' = k
      then filter (\<lambda>(m, s). \<not> (float64 mn \<le> s \<and> s \<le> float64 mx)) (zset_of t' st k)
      else zset_of t' st k')"
  by (auto simp: zset_of_alt lookup_def put_zset_def split: option.splits rvalue.splits)

lemma zset_of_Del:
  "zset_of t' (snd (exec_cmd t (Del ks) st)) k' =
     (if k' \<in> set ks then [] else zset_of t' st k')"
  by (simp add: zset_of_alt)

lemma zset_of_SetCmd:
  "zset_of t' (snd (exec_cmd t (SetCmd k b d) st)) k' =
     (if k' = k then [] else zset_of t' st k')"
  by (simp add: zset_of_alt)

lemma zset_of_ZAdd:
  "zset_of t' (snd (exec_cmd t (ZAdd k s m) st)) k' =
     (if k' = k then
        (case lookup t st k of
           Some (RString _ _) \<Rightarrow> []
         | _ \<Rightarrow> AList.update m s (zset_of t' st k))
      else zset_of t' st k')"
  by (auto simp: zset_of_alt lookup_def split: option.splits rvalue.splits if_splits)

lemma snd_exec_cmds_Nil: "snd (exec_cmds t [] st) = st"
  by simp

lemma snd_exec_cmds_Cons:
  "snd (exec_cmds t (c # cs) st) = snd (exec_cmds t cs (snd (exec_cmd t c st)))"
  by (simp split: prod.splits)

lemmas zset_of_exec =
  snd_exec_cmds_Nil snd_exec_cmds_Cons zset_of_ZRem zset_of_ZRemRangeByScore zset_of_Del
  zset_of_SetCmd zset_of_ZAdd

lemma map_of_filter_members:
  "map_of (filter (\<lambda>(m, s). P m) zs) x = (if P x then map_of zs x else None)"
  by (induction zs) auto

subsection \<open>\<^verbatim>\<open>DeleteJob\<close> and the other members of the indexes\<close>

text \<open>
  For an id other than \<^verbatim>\<open>"success"\<close> and \<^verbatim>\<open>"failed"\<close>, every member of either index
  other than the id and \<^verbatim>\<open>"1"\<close> keeps its score, and the id itself is gone from both
  once the round trip has reached the store.
\<close>

lemma DeleteJob_frame:
  assumes "jid \<noteq> success" "jid \<noteq> failed" "m \<noteq> jid" "m \<noteq> ''1''"
  shows "zscore t (conn (snd (DeleteJob net now r jid))) (resultPrefix @ success) m =
           zscore t (conn r) (resultPrefix @ success) m"
    and "zscore t (conn (snd (DeleteJob net now r jid))) (resultPrefix @ failed) m =
           zscore t (conn r) (resultPrefix @ failed) m"
  using assms
  by (simp_all add: DeleteJob_conn zscore_def zset_of_exec map_of_filter_members
        success_def failed_def del: exec_cmd.simps exec_cmds.simps split: option.splits)













text \<open>
  C1. The frame does not hold for every id and every other member. With the jobs
  \<^verbatim>\<open>"1"\<close>, \<^verbatim>\<open>"job-2"\<close> and \<^verbatim>\<open>"job-3"\<close> in the success index, \<^verbatim>\<open>DeleteJob("job-2")\<close>
  succeeds and leaves only \<^verbatim>\<open>"job-3"\<close>: the member \<^verbatim>\<open>"1"\<close>, which had the score 1024,
  is removed too, because \<^verbatim>\<open>ZRem(ctx, key, 1, id)\<close> names two members. On the same
  store \<^verbatim>\<open>DeleteJob("success")\<close> empties the success index, because the result key of
  that id is the key of the index.
\<close>

theorem DeleteJob_removes_member_1:
  "zset_of 0 (conn three_jobs) (resultPrefix @ success) =
     [(''1'', 1024), (''job-2'', 2048), (''job-3'', 4096)] \<and>
   fst (DeleteJob None 8192 three_jobs ''job-2'') = None \<and>
   zset_of 0 (conn (snd (DeleteJob None 8192 three_jobs ''job-2''))) (resultPrefix @ success) =
     [(''job-3'', 4096)] \<and>
   zscore 0 (conn three_jobs) (resultPrefix @ success) ''1'' = Some 1024 \<and>
   zscore 0 (conn (snd (DeleteJob None 8192 three_jobs ''job-2''))) (resultPrefix @ success) ''1'' =
     None \<and>
   zset_of 0 (conn (snd (DeleteJob None 8192 three_jobs ''success''))) (resultPrefix @ success) =
     []"
  by (simp add: three_jobs_def DeleteJob_def pipe_Exec_def zscore_def zset_of_alt lookup_def
        put_zset_def resultPrefix_def success_def failed_def)

subsection \<open>The pipe flusher\<close>

lemma execPipe_exec_fields:
  "opts (execPipe_exec net now r) = opts r"
  "pipe (execPipe_exec net now r) = []"
  "trips (execPipe_exec net now r) = trips r @ (if pipe r = [] then [] else [pipe r])"
  "lo (execPipe_exec net now r) =
     (case fst (pipe_Exec net (sint now) (pipe r) (conn r)) of
        None \<Rightarrow> lo r
      | Some e \<Rightarrow> lo r @ [(''could not execute redis pipe'', e)])"
  "conn (execPipe_exec net now r) = snd (pipe_Exec net (sint now) (pipe r) (conn r))"
  by (simp_all add: execPipe_exec_def log_err_def split: prod.splits option.splits)


lemma pipe_Exec_conn:
  "snd (pipe_Exec net t cs st) =
     (case net of Some msg \<Rightarrow> st | None \<Rightarrow> snd (exec_cmds t cs st))"
  by (cases cs) (simp_all add: pipe_Exec_def split: prod.splits option.splits)



lemma execPipe_loop_ticks_then_done:
  "list_all is_Tick pre \<Longrightarrow> execPipe_loop pre r = Waiting r1 \<Longrightarrow>
   execPipe_loop (pre @ Done # evs) r = Returned (execPipe_drain r1)"
proof (induction pre arbitrary: r)
  case Nil
  then show ?case by simp
next
  case (Cons e pre)
  then show ?case by (cases e) (auto split: if_splits)
qed

text \<open>As long as only ticks arrive, the flusher keeps waiting for the next event.\<close>

lemma execPipe_loop_ticks_waiting:
  "list_all is_Tick pre \<Longrightarrow> \<exists>r1. execPipe_loop pre r = Waiting r1 \<and> opts r1 = opts r"
proof (induction pre arbitrary: r)
  case Nil
  then show ?case by simp
next
  case (Cons e pre)
  show ?case
  proof (cases e)
    case Done
    with Cons.prems show ?thesis by simp
  next
    case (Tick n t)
    from Cons.prems have "list_all is_Tick pre" by simp
    from Cons.IH[OF this, of r] Cons.IH[OF this, of "execPipe_exec n t r"] Tick
    show ?thesis by (auto simp: execPipe_exec_fields)
  qed
qed

text \<open>Events after the cancellation are never looked at.\<close>

lemma execPipe_loop_done_cut:
  "execPipe_loop (pre @ Done # evs) r = execPipe_loop (pre @ [Done]) r"
proof (induction pre arbitrary: r)
  case Nil
  show ?case by simp
next
  case (Cons e pre)
  show ?case by (cases e) (simp_all add: Cons.IH)
qed

text \<open>
  Whenever the cancellation arrives, the flusher returns, and the commands that were
  waiting in the queue are not executed: the store is the one it was, no round trip
  has been made, the queue is empty, and for a queue that was not empty the log has
  one more record, the error of the cancelled context.
\<close>

lemma execPipe_done_drops_queue:
  assumes "0 < sint (PipePeriod (opts r))"
    and "list_all is_Tick pre"
    and "execPipe pre r = Waiting r1"
  shows "\<exists>r'. execPipe (pre @ Done # evs) r = Returned r' \<and>
              conn r' = conn r1 \<and> trips r' = trips r1 \<and> pipe r' = [] \<and>
              lo r' = (if pipe r1 = [] then lo r1
                       else lo r1 @ [(''could not execute redis pipe'',
                                      Transport ''context canceled'')])"
proof -
  from assms(1,3) have "execPipe_loop pre r = Waiting r1"
    by (simp add: execPipe_def)
  from execPipe_loop_ticks_then_done[OF assms(2) this, of evs] assms(1)
  have "execPipe (pre @ Done # evs) r = Returned (execPipe_drain r1)"
    by (simp add: execPipe_def)
  then show ?thesis
    by (simp add: execPipe_drain_def)
qed

text \<open>
  C9. The final drain does not execute what is left in the queue. A flusher with one
  ZADD in its queue receives the cancellation: it returns, and the events after it
  are not served, but the ZADD has not reached the store, which is as empty as it
  was; the command is gone from the queue, and the log has the error of the
  cancelled context that \<^verbatim>\<open>Exec\<close> was given.
\<close>

theorem execPipe_done_loses_queue:
  "pipe one_queued = [ZAdd ''tq:res:success'' 1024 ''job-1'']
   \<and> conn one_queued = Map.empty
   \<and> execPipe [Done, Tick None 12] one_queued =
       Returned (one_queued
          \<lparr>pipe := [],
           lo := [(''could not execute redis pipe'', Transport ''context canceled'')]\<rparr>)
   \<and> conn (one_queued
          \<lparr>pipe := [],
           lo := [(''could not execute redis pipe'', Transport ''context canceled'')]\<rparr>)
       = Map.empty
   \<and> zscore 0 Map.empty (resultPrefix @ success) ''job-1'' = None"
  by (simp add: one_queued_def execPipe_def execPipe_drain_def zscore_def zset_of_def lookup_def)

subsection \<open>\<^verbatim>\<open>Set\<close> followed by \<^verbatim>\<open>Get\<close>\<close>





lemma snd_exec_cmds_snoc:
  "snd (exec_cmds t (cs @ [c]) st) = snd (exec_cmd t c (snd (exec_cmds t cs st)))"
proof (induction cs arbitrary: st)
  case Nil
  show ?case by (simp split: prod.splits)
next
  case (Cons a cs)
  show ?case
    using Cons.IH[of "snd (exec_cmd t a st)"]
    by (simp add: snd_exec_cmds_Cons del: exec_cmds.simps exec_cmd.simps)
qed










subsection \<open>The keys\<close>

lemma issued_by_Set:
  "(if PipePeriod (opts r) \<noteq> 0
    then pipe (snd (Set net now r jid b)) =
           pipe r @ [SetCmd (''tq:res:'' @ jid) b (set_expiry (Expiry (opts r)))]
    else trips (snd (Set net now r jid b)) =
           trips r @ [[SetCmd (''tq:res:'' @ jid) b (set_expiry (Expiry (opts r)))]])"
  by (simp add: Set_def Let_def resultPrefix_def split: prod.splits)

lemma issued_by_SetSuccess:
  "(if PipePeriod (opts r) \<noteq> 0
    then pipe (snd (SetSuccess net now r jid)) =
           pipe r @ [ZAdd ''tq:res:success'' (float64 (sint now)) jid]
    else trips (snd (SetSuccess net now r jid)) =
           trips r @ [[ZAdd ''tq:res:success'' (float64 (sint now)) jid]])"
  by (simp add: SetSuccess_def Let_def resultPrefix_def success_def split: prod.splits)

lemma issued_by_SetFailed:
  "(if PipePeriod (opts r) \<noteq> 0
    then pipe (snd (SetFailed net now r jid)) =
           pipe r @ [ZAdd ''tq:res:failed'' (float64 (sint now)) jid]
    else trips (snd (SetFailed net now r jid)) =
           trips r @ [[ZAdd ''tq:res:failed'' (float64 (sint now)) jid]])"
  by (simp add: SetFailed_def Let_def resultPrefix_def failed_def split: prod.splits)

lemma Set_direct_store:
  "PipePeriod (opts r) = 0 \<Longrightarrow>
   conn (snd (Set None now r jid b)) (resultPrefix @ jid) =
     Some (RString b (set_deadline (sint now) (set_expiry (Expiry (opts r)))
                        (lookup (sint now) (conn r) (resultPrefix @ jid))))"
  by (simp add: Set_def Let_def conn_do_def)

text \<open>
  C10. The command of \<^verbatim>\<open>Set(id, b)\<close> is a SET of the key \<^verbatim>\<open>"tq:res:" + id\<close>; the
  commands of \<^verbatim>\<open>SetSuccess\<close> and \<^verbatim>\<open>SetFailed\<close> are ZADDs on the keys
  \<^verbatim>\<open>"tq:res:success"\<close> and \<^verbatim>\<open>"tq:res:failed"\<close> (queued with the pipeline, sent at once
  without it). For the ids \<^verbatim>\<open>"success"\<close> and \<^verbatim>\<open>"failed"\<close> the result key is the key of
  the index, and without the pipeline \<^verbatim>\<open>Set\<close> leaves the payload, a string, at the
  very key of the index (with the pipeline the store is not touched yet).
\<close>

theorem result_keys_meet_index_keys:
  "(if PipePeriod (opts r) \<noteq> 0
    then pipe (snd (Set net now r jid b)) =
           pipe r @ [SetCmd (''tq:res:'' @ jid) b (set_expiry (Expiry (opts r)))]
    else trips (snd (Set net now r jid b)) =
           trips r @ [[SetCmd (''tq:res:'' @ jid) b (set_expiry (Expiry (opts r)))]])
   \<and> (if PipePeriod (opts r) \<noteq> 0
      then pipe (snd (SetSuccess net now r jid)) =
             pipe r @ [ZAdd ''tq:res:success'' (float64 (sint now)) jid]
      else trips (snd (SetSuccess net now r jid)) =
             trips r @ [[ZAdd ''tq:res:success'' (float64 (sint now)) jid]])
   \<and> (if PipePeriod (opts r) \<noteq> 0
      then pipe (snd (SetFailed net now r jid)) =
             pipe r @ [ZAdd ''tq:res:failed'' (float64 (sint now)) jid]
      else trips (snd (SetFailed net now r jid)) =
             trips r @ [[ZAdd ''tq:res:failed'' (float64 (sint now)) jid]])
   \<and> resultPrefix @ success = ''tq:res:success''
   \<and> resultPrefix @ failed = ''tq:res:failed''
   \<and> resultPrefix @ ''success'' = resultPrefix @ success
   \<and> resultPrefix @ ''failed'' = resultPrefix @ failed
   \<and> conn (snd (Set None now r ''success'' b)) (resultPrefix @ success) =
       (if PipePeriod (opts r) \<noteq> 0 then conn r (resultPrefix @ success)
        else Some (RString b (set_deadline (sint now) (set_expiry (Expiry (opts r)))
                                (lookup (sint now) (conn r) (resultPrefix @ success)))))
   \<and> conn (snd (Set None now r ''failed'' b)) (resultPrefix @ failed) =
       (if PipePeriod (opts r) \<noteq> 0 then conn r (resultPrefix @ failed)
        else Some (RString b (set_deadline (sint now) (set_expiry (Expiry (opts r)))
                                (lookup (sint now) (conn r) (resultPrefix @ failed)))))"
proof -
  have keys: "resultPrefix @ success = ''tq:res:success''"
    "resultPrefix @ failed = ''tq:res:failed''"
    "resultPrefix @ ''success'' = resultPrefix @ success"
    "resultPrefix @ ''failed'' = resultPrefix @ failed"
    by (simp_all add: resultPrefix_def success_def failed_def)
  have s: "conn (snd (Set None now r ''success'' b)) (resultPrefix @ success) =
       (if PipePeriod (opts r) \<noteq> 0 then conn r (resultPrefix @ success)
        else Some (RString b (set_deadline (sint now) (set_expiry (Expiry (opts r)))
                                (lookup (sint now) (conn r) (resultPrefix @ success)))))"
    by (simp add: Set_def Let_def conn_do_def success_def)
  have f: "conn (snd (Set None now r ''failed'' b)) (resultPrefix @ failed) =
       (if PipePeriod (opts r) \<noteq> 0 then conn r (resultPrefix @ failed)
        else Some (RString b (set_deadline (sint now) (set_expiry (Expiry (opts r)))
                                (lookup (sint now) (conn r) (resultPrefix @ failed)))))"
    by (simp add: Set_def Let_def conn_do_def failed_def)
  show ?thesis
    using issued_by_Set[of r net now jid b] issued_by_SetSuccess[of r net now jid]
      issued_by_SetFailed[of r net now jid] keys s f
    by blast
qed

text \<open>
  On the store with three successful jobs, \<^verbatim>\<open>Set("success", b)\<close> puts a string where
  the index was: \<^verbatim>\<open>GetSuccess\<close> then fails with WRONGTYPE.
\<close>

theorem result_keys_meet_index_keys_witness:
  "conn (snd (Set None 8192 three_jobs ''success'' [0])) ''tq:res:success'' =
     Some (RString [0] None)
   \<and> GetSuccess None 9000 (snd (Set None 8192 three_jobs ''success'' [0])) = Inl WrongType"
  using result_keys_meet_index_keys[of three_jobs None 8192 "''success''" "[0]"]
  by (simp add: three_jobs_def GetSuccess_def conn_ZRevRangeByScore_def lookup_def
        resultPrefix_def success_def Set_def conn_do_def set_expiry_def)

subsection \<open>Rounding to a double\<close>

lemma float64_0 [simp]: "float64 0 = 0"
  by (simp add: float64_def)

lemma float64_small: "\<bar>n\<bar> < 2 ^ 53 \<Longrightarrow> float64 n = n"
proof -
  assume a: "\<bar>n\<bar> < 2 ^ 53"
  then have "bitlen \<bar>n\<bar> \<le> 53" by (simp add: bitlen_le_iff_power)
  then have "nat (bitlen \<bar>n\<bar> - 53) = 0" by simp
  then show ?thesis by (simp add: float64_def Let_def mult_sgn_abs)
qed

lemma shift_eq:
  assumes "2 ^ (52 + e) \<le> a" "a < 2 ^ (53 + e)"
  shows "nat (bitlen a - 53) = e"
proof -
  have "bitlen a \<le> 53 + int e"
    using assms(2) by (simp add: bitlen_le_iff_power nat_add_distrib)
  moreover have "53 + int e \<le> bitlen a"
    using assms(1) by (simp add: bitlen_ge_iff_power nat_add_distrib)
  ultimately show ?thesis by simp
qed

lemma float64_nonneg_form:
  assumes "0 \<le> n"
  shows "\<exists>q'. float64 n = q' * 2 ^ nat (bitlen n - 53) \<and> n div 2 ^ nat (bitlen n - 53) \<le> q'"
proof (cases "n = 0")
  case True
  then show ?thesis by simp
next
  case False
  with assms have "sgn n = 1" "\<bar>n\<bar> = n" by simp_all
  then show ?thesis
    by (auto simp add: float64_def Let_def)
qed

lemma float64_floor:
  assumes s0: "0 \<le> s" and sc: "s \<le> c" and rep: "float64 s = s"
  shows "s \<le> float64 c"
proof -
  define e where "e = nat (bitlen c - 53)"
  from s0 sc have c0: "0 \<le> c" by simp
  from float64_nonneg_form[OF c0] obtain q' where
    fc: "float64 c = q' * 2 ^ e" and q': "c div 2 ^ e \<le> q'"
    by (auto simp: e_def)
  let ?F = "(c div 2 ^ e) * 2 ^ e"
  have F_le: "?F \<le> float64 c"
    using q' fc by simp
  show ?thesis
  proof (cases "s \<le> ?F")
    case True
    with F_le show ?thesis by simp
  next
    case False
    then have sF: "?F < s" by simp
    have "e \<noteq> 0"
    proof
      assume "e = 0"
      then have "?F = c" by simp
      with sF sc show False by simp
    qed
    then have epos: "0 < e" by simp
    then have bl: "bitlen c = 53 + int e"
      by (simp add: e_def)
    have cpos: "0 < c" using bl bitlen_eq_zero_iff[of c] c0 by (cases "c = 0") auto
    from bitlen_bounds[OF cpos] bl have lo: "2 ^ (52 + e) \<le> c" and hi: "c < 2 ^ (53 + e)"
      by (simp_all add: nat_add_distrib)
    have "2 ^ 52 \<le> c div 2 ^ e"
    proof -
      have "(2::int) ^ 52 * 2 ^ e \<le> c" using lo by (simp add: power_add)
      then show ?thesis
        by (metis div_mult_self_is_m zdiv_mono1 zero_less_numeral zero_less_power mult.commute
              nonzero_mult_div_cancel_right power_not_zero zero_neq_numeral)
    qed
    then have "(2::int) ^ 52 * 2 ^ e \<le> ?F"
      by (simp add: mult_right_mono)
    then have Flo: "(2::int) ^ (52 + e) \<le> ?F" by (simp add: power_add)
    with sF have slo: "2 ^ (52 + e) \<le> s" by simp
    from sc hi have shi: "s < 2 ^ (53 + e)" by simp
    from shift_eq[OF slo shi] have es: "nat (bitlen s - 53) = e" .
    from float64_nonneg_form[OF s0] es rep obtain qs where "s = qs * 2 ^ e"
      by auto
    then have dv: "(2::int) ^ e dvd s" by simp
    have "s div 2 ^ e > c div 2 ^ e"
    proof (rule ccontr)
      assume "\<not> c div 2 ^ e < s div 2 ^ e"
      then have "s div 2 ^ e \<le> c div 2 ^ e" by simp
      then have "(s div 2 ^ e) * 2 ^ e \<le> ?F" by (simp add: mult_right_mono)
      with dv have "s \<le> ?F" by simp
      with sF show False by simp
    qed
    moreover have "s div 2 ^ e \<le> c div 2 ^ e"
      using sc by (simp add: zdiv_mono1)
    ultimately show ?thesis by simp
  qed
qed

lemma float64_2_60:
  assumes "2 ^ 60 \<le> n" "n < 2 ^ 61"
  shows "float64 n = (if 128 < n mod 256 \<or> (n mod 256 = 128 \<and> odd (n div 256))
                      then n div 256 + 1 else n div 256) * 256"
proof -
  have "nat (bitlen n - 53) = 8"
    using shift_eq[of 8 n] assms by simp
  moreover have "\<bar>n\<bar> = n" "sgn n = 1" using assms by simp_all
  ultimately show ?thesis
    by (simp add: float64_def Let_def)
qed

subsection \<open>Sorted sets keep each member once\<close>

lemma zset_of_time: "zset_of t st k = zset_of 0 st k"
  by (simp add: zset_of_alt)

lemma wf_store_distinct: "wf_store st \<Longrightarrow> distinct (map fst (zset_of t st k))"
  using zset_of_time[of t st k] by (simp add: wf_store_def)

lemma wf_exec_cmd: "wf_store st \<Longrightarrow> wf_store (snd (exec_cmd t c st))"
proof -
  assume wf: "wf_store st"
  have "distinct (map fst (zset_of 0 (snd (exec_cmd t c st)) k))" for k
    using wf_store_distinct[OF wf, of 0 k]
    by (cases c)
       (auto simp add: zset_of_exec distinct_map_filter distinct_update
             simp del: exec_cmd.simps split: option.splits rvalue.splits)
  then show ?thesis by (simp add: wf_store_def)
qed

lemma wf_exec_cmds: "wf_store st \<Longrightarrow> wf_store (snd (exec_cmds t cs st))"
proof (induction cs arbitrary: st)
  case Nil
  then show ?case by simp
next
  case (Cons c cs)
  from Cons.IH[OF wf_exec_cmd[OF Cons.prems, of t c]] show ?case
    by (simp add: snd_exec_cmds_Cons del: exec_cmd.simps exec_cmds.simps)
qed

lemma count_list_distinct: "distinct xs \<Longrightarrow> x \<in> set xs \<Longrightarrow> count_list xs x = 1"
  by (induction xs) (auto simp: count_list_0_iff)

lemma ZAdd_ok_iff:
  "fst (exec_cmd t (ZAdd k s m) st) = None \<longleftrightarrow> (\<forall>b d. lookup t st k \<noteq> Some (RString b d))"
  by (auto split: option.splits rvalue.splits)

lemma zset_of_ZAdd_ok:
  "fst (exec_cmd t (ZAdd k s m) st) = None \<Longrightarrow>
   zset_of t' (snd (exec_cmd t (ZAdd k s m) st)) k = AList.update m s (zset_of t' st k)"
  by (auto simp: zset_of_ZAdd ZAdd_ok_iff simp del: exec_cmd.simps split: option.splits rvalue.splits)

lemma ZAdd_keeps_type:
  "fst (exec_cmd t (ZAdd k s m) st) = None \<Longrightarrow>
   fst (exec_cmd t' (ZAdd k s' m') (snd (exec_cmd t (ZAdd k s m) st))) = None"
  by (auto simp: lookup_def split: option.splits rvalue.splits if_splits)

lemma ZAdd_twice:
  assumes d: "distinct (map fst (zset_of t st k))"
    and ok1: "fst (exec_cmd t1 (ZAdd k s1 m) st) = None"
  shows "count_list (map fst (zset_of t
            (snd (exec_cmd t2 (ZAdd k s2 m) (snd (exec_cmd t1 (ZAdd k s1 m) st)))) k)) m = 1
       \<and> zscore t (snd (exec_cmd t2 (ZAdd k s2 m) (snd (exec_cmd t1 (ZAdd k s1 m) st)))) k m
           = Some s2"
proof -
  let ?zs = "AList.update m s2 (AList.update m s1 (zset_of t st k))"
  have z: "zset_of t (snd (exec_cmd t2 (ZAdd k s2 m) (snd (exec_cmd t1 (ZAdd k s1 m) st)))) k = ?zs"
    using zset_of_ZAdd_ok[OF ZAdd_keeps_type[OF ok1, of t2 s2 m], of t] zset_of_ZAdd_ok[OF ok1, of t]
    by simp
  have "distinct (map fst ?zs)" using d by (simp add: distinct_update)
  moreover have "m \<in> set (map fst ?zs)" by (simp add: dom_update)
  ultimately have "count_list (map fst ?zs) m = 1" by (rule count_list_distinct)
  moreover have "map_of ?zs m = Some s2" by (simp add: update_conv')
  ultimately show ?thesis using z by (simp add: zscore_def)
qed

lemma SetSuccess_direct:
  assumes "PipePeriod (opts r) = 0"
  shows "conn (snd (SetSuccess None now r jid)) =
           snd (exec_cmd (sint now) (ZAdd (resultPrefix @ success) (float64 (sint now)) jid) (conn r))"
    and "fst (SetSuccess None now r jid) =
           fst (exec_cmd (sint now) (ZAdd (resultPrefix @ success) (float64 (sint now)) jid) (conn r))"
    and "opts (snd (SetSuccess net now r jid)) = opts r"
    and "fst (SetSuccess (Some msg) now r jid) = Some (Transport msg)"
  using assms
  by (simp_all add: SetSuccess_def conn_do_def Let_def split: prod.splits option.splits
        del: exec_cmd.simps)

lemma SetSuccess_batch:
  assumes "PipePeriod (opts r) \<noteq> 0"
  shows "SetSuccess net now r jid =
           (None, r\<lparr>pipe := pipe r @ [ZAdd (resultPrefix @ success) (float64 (sint now)) jid]\<rparr>)"
  using assms by (simp add: SetSuccess_def Let_def)
lemma wf_store_empty: "wf_store Map.empty"
  by (simp add: wf_store_def zset_of_alt)

lemma fresh_direct_simps:
  "opts fresh_direct = \<lparr>Expiry = 0, MetaExpiry = 0, PipePeriod = 0\<rparr>"
  "conn fresh_direct = Map.empty"
  by (simp_all add: fresh_direct_def New_def)

subsection \<open>\<^verbatim>\<open>SetSuccess\<close> twice\<close>

text \<open>
  C5 (amended). Let each member be once in every sorted set of the store, and let
  \<^verbatim>\<open>SetSuccess(id)\<close> be called twice, at \<open>t1\<close> and then at \<open>t2\<close>, both ZADDs being
  applied: without the pipeline both calls return no error; with it the queue is
  executed at \<open>tf\<close> and the success key holds no string when the two commands run.
  Then the success index holds \<open>id\<close> exactly once, and its score is \<open>float64 t2\<close>, the
  time of the later call rounded to a double.
\<close>

theorem SetSuccess_twice_upserts:
  assumes wf: "wf_store (conn r)"
  shows "(PipePeriod (opts r) = 0 \<longrightarrow>
            fst (SetSuccess n1 t1 r jid) = None \<longrightarrow>
            fst (SetSuccess n2 t2 (snd (SetSuccess n1 t1 r jid)) jid) = None \<longrightarrow>
            count_list (map fst (zset_of t
                (conn (snd (SetSuccess n2 t2 (snd (SetSuccess n1 t1 r jid)) jid)))
                (resultPrefix @ success))) jid = 1 \<and>
            zscore t (conn (snd (SetSuccess n2 t2 (snd (SetSuccess n1 t1 r jid)) jid)))
                (resultPrefix @ success) jid = Some (float64 (sint t2)))
       \<and> (PipePeriod (opts r) \<noteq> 0 \<longrightarrow>
            (\<forall>b d. lookup (sint tf) (snd (exec_cmds (sint tf) (pipe r) (conn r)))
                     (resultPrefix @ success) \<noteq> Some (RString b d)) \<longrightarrow>
            count_list (map fst (zset_of t
                (conn (execPipe_exec None tf
                         (snd (SetSuccess n2 t2 (snd (SetSuccess n1 t1 r jid)) jid))))
                (resultPrefix @ success))) jid = 1 \<and>
            zscore t (conn (execPipe_exec None tf
                         (snd (SetSuccess n2 t2 (snd (SetSuccess n1 t1 r jid)) jid))))
                (resultPrefix @ success) jid = Some (float64 (sint t2)))"
proof (intro conjI impI)
  let ?k = "resultPrefix @ success"
  let ?r1 = "snd (SetSuccess n1 t1 r jid)"
  let ?r2 = "snd (SetSuccess n2 t2 ?r1 jid)"
  {
    assume direct: "PipePeriod (opts r) = 0"
      and ok1: "fst (SetSuccess n1 t1 r jid) = None"
      and ok2: "fst (SetSuccess n2 t2 ?r1 jid) = None"
    from direct ok1 have n1: "n1 = None"
      by (cases n1) (simp_all add: SetSuccess_direct(4))
    from direct have o1: "PipePeriod (opts ?r1) = 0"
      by (simp add: SetSuccess_direct(3))
    from o1 ok2 have n2: "n2 = None"
      by (cases n2) (simp_all add: SetSuccess_direct(4))
    have c1: "conn ?r1 = snd (exec_cmd (sint t1) (ZAdd ?k (float64 (sint t1)) jid) (conn r))"
      and e1: "fst (exec_cmd (sint t1) (ZAdd ?k (float64 (sint t1)) jid) (conn r)) = None"
      using direct n1 ok1 SetSuccess_direct(1,2)[OF direct, of t1 jid]
      by simp_all
    have c2: "conn ?r2 = snd (exec_cmd (sint t2) (ZAdd ?k (float64 (sint t2)) jid) (conn ?r1))"
      using n2 SetSuccess_direct(1)[OF o1, of t2 jid] by simp
    from ZAdd_twice[OF wf_store_distinct[OF wf, of t ?k] e1, of "sint t2" "float64 (sint t2)"] c1 c2
    have "count_list (map fst (zset_of t (conn ?r2) ?k)) jid = 1 \<and>
          zscore t (conn ?r2) ?k jid = Some (float64 (sint t2))"
      by simp
  }
  note d = this
  from d show "PipePeriod (opts r) = 0 \<Longrightarrow> fst (SetSuccess n1 t1 r jid) = None \<Longrightarrow>
       fst (SetSuccess n2 t2 ?r1 jid) = None \<Longrightarrow>
       count_list (map fst (zset_of t (conn ?r2) ?k)) jid = 1" by blast
  from d show "PipePeriod (opts r) = 0 \<Longrightarrow> fst (SetSuccess n1 t1 r jid) = None \<Longrightarrow>
       fst (SetSuccess n2 t2 ?r1 jid) = None \<Longrightarrow>
       zscore t (conn ?r2) ?k jid = Some (float64 (sint t2))" by blast
  {
    assume batch: "PipePeriod (opts r) \<noteq> 0"
      and nostr: "\<forall>b d. lookup (sint tf) (snd (exec_cmds (sint tf) (pipe r) (conn r))) ?k
                     \<noteq> Some (RString b d)"
    let ?st = "snd (exec_cmds (sint tf) (pipe r) (conn r))"
    let ?a1 = "ZAdd ?k (float64 (sint t1)) jid"
    let ?a2 = "ZAdd ?k (float64 (sint t2)) jid"
    from batch have p2: "pipe ?r2 = (pipe r @ [?a1]) @ [?a2]" and c2: "conn ?r2 = conn r"
      by (simp_all add: SetSuccess_batch)
    have "conn (execPipe_exec None tf ?r2) =
        snd (exec_cmd (sint tf) ?a2 (snd (exec_cmd (sint tf) ?a1 ?st)))"
      unfolding execPipe_exec_fields pipe_Exec_conn p2 c2 snd_exec_cmds_snoc by simp
    moreover have e1: "fst (exec_cmd (sint tf) ?a1 ?st) = None"
      using nostr by (simp add: ZAdd_ok_iff del: exec_cmd.simps)
    moreover have "distinct (map fst (zset_of t ?st ?k))"
      by (rule wf_store_distinct[OF wf_exec_cmds[OF wf]])
    ultimately have "count_list (map fst (zset_of t (conn (execPipe_exec None tf ?r2)) ?k)) jid = 1 \<and>
          zscore t (conn (execPipe_exec None tf ?r2)) ?k jid = Some (float64 (sint t2))"
      using ZAdd_twice[of t ?st ?k "sint tf" "float64 (sint t1)" jid "sint tf" "float64 (sint t2)"]
      by simp
  }
  note b = this
  from b show "PipePeriod (opts r) \<noteq> 0 \<Longrightarrow>
       \<forall>b d. lookup (sint tf) (snd (exec_cmds (sint tf) (pipe r) (conn r))) ?k \<noteq> Some (RString b d) \<Longrightarrow>
       count_list (map fst (zset_of t (conn (execPipe_exec None tf ?r2)) ?k)) jid = 1" by blast
  from b show "PipePeriod (opts r) \<noteq> 0 \<Longrightarrow>
       \<forall>b d. lookup (sint tf) (snd (exec_cmds (sint tf) (pipe r) (conn r))) ?k \<noteq> Some (RString b d) \<Longrightarrow>
       zscore t (conn (execPipe_exec None tf ?r2)) ?k jid = Some (float64 (sint t2))" by blast
qed

theorem SetSuccess_twice_upserts_witness:
  "count_list (map fst (zset_of 0
       (conn (snd (SetSuccess None 1700000000000000200
                     (snd (SetSuccess None 1700000000000000100 fresh_direct ''job-1''))
                     ''job-1'')))
       (resultPrefix @ success))) ''job-1'' = 1
   \<and> zscore 0
       (conn (snd (SetSuccess None 1700000000000000200
                     (snd (SetSuccess None 1700000000000000100 fresh_direct ''job-1''))
                     ''job-1'')))
       (resultPrefix @ success) ''job-1'' = Some 1700000000000000256"
  using SetSuccess_twice_upserts[of fresh_direct None 1700000000000000100 "''job-1''"
          None 1700000000000000200 0]
  by (simp add: fresh_direct_simps wf_store_empty SetSuccess_direct lookup_def float64_2_60)

text \<open>
  The score is not the time of the later call itself: after calls at
  1700000000000000100 and 1700000000000000200 the score is 1700000000000000256.
\<close>

theorem SetSuccess_score_not_timestamp:
  "fst (SetSuccess None 1700000000000000100 fresh_direct ''job-1'') = None
   \<and> fst (SetSuccess None 1700000000000000200
           (snd (SetSuccess None 1700000000000000100 fresh_direct ''job-1'')) ''job-1'') = None
   \<and> zscore 0
       (conn (snd (SetSuccess None 1700000000000000200
                     (snd (SetSuccess None 1700000000000000100 fresh_direct ''job-1''))
                     ''job-1'')))
       (resultPrefix @ success) ''job-1'' = Some 1700000000000000256
   \<and> sint (1700000000000000200 :: 64 word) = 1700000000000000200
   \<and> zscore 0
       (conn (snd (SetSuccess None 1700000000000000200
                     (snd (SetSuccess None 1700000000000000100 fresh_direct ''job-1''))
                     ''job-1'')))
       (resultPrefix @ success) ''job-1'' \<noteq> Some (sint (1700000000000000200 :: 64 word))"
  by (simp add: fresh_direct_simps SetSuccess_direct lookup_def float64_2_60 zscore_def
        zset_of_alt)

subsection \<open>\<^verbatim>\<open>GetSuccess\<close> and \<^verbatim>\<open>GetFailed\<close>\<close>

lemma set_zrevrange:
  "set (zrevrange mn mx zs) = {(m, s). (m, s) \<in> set zs \<and> float64 mn \<le> s \<and> s \<le> float64 mx}"
  by (auto simp: zrevrange_def)

lemma sorted_map_fst_lex:
  fixes ps :: "(int \<times> string) list"
  shows "sorted ps \<Longrightarrow> sorted (map fst ps)"
  by (induction ps) (auto simp: less_eq_prod_def)

lemma sorted_zrevrange: "sorted (rev (map snd (zrevrange mn mx zs)))"
proof -
  let ?ys = "sort_key (\<lambda>(m, s). (s, m)) (filter (\<lambda>(m, s). float64 mn \<le> s \<and> s \<le> float64 mx) zs)"
  have "sorted (map (\<lambda>(m, s). (s, m)) ?ys)" by (rule sorted_sort_key)
  from sorted_map_fst_lex[OF this] have "sorted (map snd ?ys)"
    by (simp add: comp_def case_prod_beta)
  then show ?thesis by (simp add: zrevrange_def rev_map)
qed

lemma distinct_zrevrange:
  assumes "distinct (map fst zs)"
  shows "distinct (map fst (zrevrange mn mx zs))"
proof -
  from assms have d: "distinct zs" and i: "inj_on fst (set zs)"
    by (simp_all add: distinct_map)
  have "set (zrevrange mn mx zs) \<subseteq> set zs" by (auto simp: set_zrevrange)
  from inj_on_subset[OF i this] have "inj_on fst (set (zrevrange mn mx zs))" .
  moreover have "distinct (zrevrange mn mx zs)" using d by (simp add: zrevrange_def)
  ultimately show ?thesis by (simp add: distinct_map)
qed

lemma conn_ZRevRangeByScore_Inr:
  assumes "conn_ZRevRangeByScore net t k mn mx st = Inr xs"
  shows "xs = map fst (zrevrange mn mx (zset_of t st k))"
  using assms
  by (auto simp: conn_ZRevRangeByScore_def zset_of_def zrevrange_def
           split: option.splits rvalue.splits)

lemma conn_ZRevRangeByScore_ok_iff:
  "(\<exists>xs. conn_ZRevRangeByScore net t k mn mx st = Inr xs) \<longleftrightarrow>
     net = None \<and> (\<forall>b d. lookup t st k \<noteq> Some (RString b d))"
  by (auto simp: conn_ZRevRangeByScore_def split: option.splits rvalue.splits)

text \<open>
  C6 (amended). \<^verbatim>\<open>GetSuccess\<close> returns a list exactly when its round trip succeeds
  and the success key holds no string. The list then is the members of the entries
  of the success index whose score lies between 0 and \<open>float64 now\<close>, both included,
  where \<open>float64 now\<close> is the time of the call rounded to a double; it is in
  descending order of score, and without repetition when the store has each member
  once. In particular every entry whose score is a double between 0 and \<open>now\<close> is
  returned. The same holds for \<^verbatim>\<open>GetFailed\<close> and the failed index.
\<close>

theorem GetSuccess_GetFailed_by_score:
  "(GetSuccess net now r = Inr xs \<longrightarrow>
      (\<exists>ps. xs = map fst ps \<and>
            set ps = {(m, s). (m, s) \<in> set (zset_of (sint now) (conn r) (resultPrefix @ success)) \<and>
                             0 \<le> s \<and> s \<le> float64 (sint now)} \<and>
            sorted (rev (map snd ps)) \<and>
            (wf_store (conn r) \<longrightarrow> distinct xs)) \<and>
      (\<forall>(m, s) \<in> set (zset_of (sint now) (conn r) (resultPrefix @ success)).
         float64 s = s \<longrightarrow> 0 \<le> s \<longrightarrow> s \<le> sint now \<longrightarrow> m \<in> set xs))
   \<and> (GetFailed net now r = Inr ys \<longrightarrow>
      (\<exists>ps. ys = map fst ps \<and>
            set ps = {(m, s). (m, s) \<in> set (zset_of (sint now) (conn r) (resultPrefix @ failed)) \<and>
                             0 \<le> s \<and> s \<le> float64 (sint now)} \<and>
            sorted (rev (map snd ps)) \<and>
            (wf_store (conn r) \<longrightarrow> distinct ys)) \<and>
      (\<forall>(m, s) \<in> set (zset_of (sint now) (conn r) (resultPrefix @ failed)).
         float64 s = s \<longrightarrow> 0 \<le> s \<longrightarrow> s \<le> sint now \<longrightarrow> m \<in> set ys))
   \<and> ((\<exists>xs. GetSuccess net now r = Inr xs) \<longleftrightarrow>
        net = None \<and>
        (\<forall>b d. lookup (sint now) (conn r) (resultPrefix @ success) \<noteq> Some (RString b d)))
   \<and> ((\<exists>ys. GetFailed net now r = Inr ys) \<longleftrightarrow>
        net = None \<and>
        (\<forall>b d. lookup (sint now) (conn r) (resultPrefix @ failed) \<noteq> Some (RString b d)))"
proof -
  have range: "conn_ZRevRangeByScore net (sint now) k 0 (sint now) (conn r) = Inr zs \<Longrightarrow>
      (\<exists>ps. zs = map fst ps \<and>
            set ps = {(m, s). (m, s) \<in> set (zset_of (sint now) (conn r) k) \<and>
                             0 \<le> s \<and> s \<le> float64 (sint now)} \<and>
            sorted (rev (map snd ps)) \<and>
            (wf_store (conn r) \<longrightarrow> distinct zs)) \<and>
      (\<forall>(m, s) \<in> set (zset_of (sint now) (conn r) k).
         float64 s = s \<longrightarrow> 0 \<le> s \<longrightarrow> s \<le> sint now \<longrightarrow> m \<in> set zs)" for k zs
  proof -
    assume a: "conn_ZRevRangeByScore net (sint now) k 0 (sint now) (conn r) = Inr zs"
    let ?ps = "zrevrange 0 (sint now) (zset_of (sint now) (conn r) k)"
    from conn_ZRevRangeByScore_Inr[OF a] have zs: "zs = map fst ?ps" .
    have sp: "set ?ps = {(m, s). (m, s) \<in> set (zset_of (sint now) (conn r) k) \<and>
                             0 \<le> s \<and> s \<le> float64 (sint now)}"
      by (simp add: set_zrevrange)
    have "sorted (rev (map snd ?ps))" by (rule sorted_zrevrange)
    moreover have "wf_store (conn r) \<longrightarrow> distinct (map fst ?ps)"
      by (simp add: distinct_zrevrange wf_store_distinct)
    moreover have "\<forall>(m, s) \<in> set (zset_of (sint now) (conn r) k).
         float64 s = s \<longrightarrow> 0 \<le> s \<longrightarrow> s \<le> sint now \<longrightarrow> m \<in> set zs"
    proof (intro ballI, clarify)
      fix m s
      assume "(m, s) \<in> set (zset_of (sint now) (conn r) k)" "float64 s = s" "0 \<le> s" "s \<le> sint now"
      with float64_floor[of s "sint now"] have "(m, s) \<in> set ?ps"
        unfolding sp by simp
      then show "m \<in> set zs" unfolding zs by force
    qed
    ultimately show ?thesis using zs sp by blast
  qed
  show ?thesis
    unfolding GetSuccess_def GetFailed_def conn_ZRevRangeByScore_ok_iff
    using range by blast
qed

theorem GetSuccess_GetFailed_by_score_witness:
  "GetSuccess None 8192 three_jobs = Inr [''job-3'', ''job-2'', ''1'']
   \<and> GetSuccess None 2048 three_jobs = Inr [''job-2'', ''1'']
   \<and> GetFailed None 8192 three_jobs = Inr []"
  using GetSuccess_GetFailed_by_score[of None 8192 three_jobs "[''job-3'', ''job-2'', ''1'']" "[]"]
  by (simp add: three_jobs_def GetSuccess_def GetFailed_def conn_ZRevRangeByScore_def
        zrevrange_def lookup_def float64_small resultPrefix_def success_def failed_def)

text \<open>
  The bound is not the time of the call itself: a job recorded at
  1700000000000000200 has the score 1700000000000000256, and \<^verbatim>\<open>GetSuccess\<close> called at
  1700000000000000210 returns it, although its score is greater than that instant.
\<close>

theorem GetSuccess_includes_later_score:
  "GetSuccess None 1700000000000000210
     (snd (SetSuccess None 1700000000000000200 fresh_direct ''job-1'')) = Inr [''job-1'']
   \<and> zscore 0 (conn (snd (SetSuccess None 1700000000000000200 fresh_direct ''job-1'')))
       (resultPrefix @ success) ''job-1'' = Some 1700000000000000256
   \<and> sint (1700000000000000210 :: 64 word) < 1700000000000000256"
  by (simp add: fresh_direct_simps SetSuccess_direct lookup_def float64_2_60 zscore_def
        zset_of_alt GetSuccess_def conn_ZRevRangeByScore_def zrevrange_def)

subsection \<open>The metadata purger\<close>

lemma sint_sub_no_overflow:
  fixes now ttl :: "64 word"
  assumes "0 \<le> sint now" "0 < sint ttl"
  shows "sint (now - ttl) = sint now - sint ttl"
proof -
  have "sint now < 2 ^ 63" "sint ttl < 2 ^ 63"
    using sint_lt[of now] sint_lt[of ttl] by simp_all
  with assms have "- (2 ^ 63) \<le> sint now - sint ttl" "sint now - sint ttl < 2 ^ 63"
    by simp_all
  then have "signed_take_bit 63 (sint now - sint ttl) = sint now - sint ttl"
    by (rule signed_take_bit_int_eq_self)
  then show ?thesis by (simp add: sint_word_ariths)
qed

lemma expireMeta_tick_batch:
  "PipePeriod (opts r) \<noteq> 0 \<Longrightarrow>
   expireMeta_tick n1 n2 now ttl r =
     r\<lparr>pipe := pipe r @ [ZRemRangeByScore (resultPrefix @ failed) 0 (sint (now - ttl)),
                          ZRemRangeByScore (resultPrefix @ success) 0 (sint (now - ttl))]\<rparr>"
  by (simp add: expireMeta_tick_def Let_def)

lemma conn_do_conn:
  "snd (conn_do net t c st) = (case net of Some msg \<Rightarrow> st | None \<Rightarrow> snd (exec_cmd t c st))"
  by (simp add: conn_do_def split: option.splits)

lemma expireMeta_tick_direct:
  assumes "PipePeriod (opts r) = 0"
  shows "pipe (expireMeta_tick n1 n2 now ttl r) = pipe r"
    and "trips (expireMeta_tick n1 n2 now ttl r) =
           trips r @ [[ZRemRangeByScore (resultPrefix @ failed) 0 (sint (now - ttl))],
                      [ZRemRangeByScore (resultPrefix @ success) 0 (sint (now - ttl))]]"
    and "conn (expireMeta_tick n1 n2 now ttl r) =
           snd (conn_do n2 (sint now) (ZRemRangeByScore (resultPrefix @ success) 0 (sint (now - ttl)))
             (snd (conn_do n1 (sint now)
                (ZRemRangeByScore (resultPrefix @ failed) 0 (sint (now - ttl))) (conn r))))"
  using assms
  by (simp_all add: expireMeta_tick_def Let_def split: prod.splits)

lemma purged_filter:
  assumes "\<forall>(m, s) \<in> set zs. float64 s = s"
  shows "\<forall>(m, s) \<in> set (filter (\<lambda>(m, s). \<not> (float64 0 \<le> s \<and> s \<le> float64 c)) zs).
           \<not> (0 \<le> s \<and> s \<le> c)"
  using assms float64_floor by fastforce

lemma keys_differ: "resultPrefix @ failed \<noteq> resultPrefix @ success"
  by (simp add: failed_def success_def)

lemma expireMeta_running:
  "0 < sint ttl \<Longrightarrow>
   expireMeta ttl start evs r = Waiting (expireMeta_loop (Ticker (sint ttl)) start 0 ttl evs r)"
  by (simp add: expireMeta_def NewTicker_def)

lemma expireMeta_loop_snoc:
  "expireMeta_loop tk start j ttl (evs @ [(n1, n2, dropped, lag)]) r =
     expireMeta_tick n1 n2
       (word_of_int (start + int (j + tick_no evs + dropped + 1) * period tk + int lag)) ttl
       (expireMeta_loop tk start j ttl evs r)"
proof (induction evs arbitrary: j r)
  case Nil
  show ?case by simp
next
  case (Cons e evs)
  obtain a b d l where e: "e = (a, b, d, l)" by (cases e)
  show ?case
    using Cons.IH[of "j + d + 1"] by (simp add: e add.assoc add.left_commute)
qed

text \<open>
  C7. \<^verbatim>\<open>New\<close> starts \<^verbatim>\<open>expireMeta\<close> exactly when \<^verbatim>\<open>MetaExpiry\<close> is not zero, and with
  that duration as window. Let the window be positive, so that the ticker exists;
  its period is the window. Before the first tick the purger has done nothing. Let
  it have served the ticks \<open>evs\<close> and be in the state \<open>r1\<close>, and let it receive its
  next tick: the tick due at \<open>start\<close> plus the number of the tick times the window,
  the clock being read at \<open>now\<close>, \<open>lag\<close> after that, and not negative. Then the
  purger goes on, in the state one \<open>expireMeta_tick\<close> makes of \<open>r1\<close>, with the cutoff
  \<open>now - ttl\<close>. With the pipeline that tick appends to the shared queue the removal of
  the scores from 0 to the cutoff, first for the failed index and then for the
  success index, and does nothing else. Without it the two removals are two round
  trips, in that order; after the one that succeeds, the index is what it was
  without the entries whose score lies between 0 and the cutoff rounded to a
  double, and, the scores of the store being doubles, no entry with a score between
  0 and the cutoff is left.
\<close>

theorem expireMeta_purges:
  assumes window: "0 < sint ttl"
    and run: "expireMeta ttl start evs r = Waiting r1"
    and tick: "now = word_of_int (start + int (tick_no evs + dropped + 1) * sint ttl + int lag)"
    and clock: "0 \<le> sint now"
    and doubles: "\<forall>k \<in> {resultPrefix @ failed, resultPrefix @ success}.
                    \<forall>(m, s) \<in> set (zset_of t (conn r1) k). float64 s = s"
  shows "(ExpireMeta w \<in> set (spawned (New ops st))) = (MetaExpiry ops \<noteq> 0 \<and> w = MetaExpiry ops)
    \<and> expireMeta ttl start [] r = Waiting r
    \<and> expireMeta ttl start (evs @ [(n1, n2, dropped, lag)]) r =
        Waiting (expireMeta_tick n1 n2 now ttl r1)
    \<and> (PipePeriod (opts r1) \<noteq> 0 \<longrightarrow>
         expireMeta_tick n1 n2 now ttl r1 =
           r1\<lparr>pipe := pipe r1 @
                [ZRemRangeByScore (resultPrefix @ failed) 0 (sint now - sint ttl),
                 ZRemRangeByScore (resultPrefix @ success) 0 (sint now - sint ttl)]\<rparr>)
    \<and> (PipePeriod (opts r1) = 0 \<longrightarrow>
         pipe (expireMeta_tick n1 n2 now ttl r1) = pipe r1 \<and>
         trips (expireMeta_tick n1 n2 now ttl r1) =
           trips r1 @ [[ZRemRangeByScore (resultPrefix @ failed) 0 (sint now - sint ttl)],
                       [ZRemRangeByScore (resultPrefix @ success) 0 (sint now - sint ttl)]] \<and>
         (n1 = None \<longrightarrow>
            zset_of t (conn (expireMeta_tick n1 n2 now ttl r1)) (resultPrefix @ failed) =
              filter (\<lambda>(m, s). \<not> (0 \<le> s \<and> s \<le> float64 (sint now - sint ttl)))
                (zset_of t (conn r1) (resultPrefix @ failed)) \<and>
            (\<forall>(m, s) \<in> set (zset_of t (conn (expireMeta_tick n1 n2 now ttl r1))
                               (resultPrefix @ failed)).
               \<not> (0 \<le> s \<and> s \<le> sint now - sint ttl))) \<and>
         (n2 = None \<longrightarrow>
            zset_of t (conn (expireMeta_tick n1 n2 now ttl r1)) (resultPrefix @ success) =
              filter (\<lambda>(m, s). \<not> (0 \<le> s \<and> s \<le> float64 (sint now - sint ttl)))
                (zset_of t (conn r1) (resultPrefix @ success)) \<and>
            (\<forall>(m, s) \<in> set (zset_of t (conn (expireMeta_tick n1 n2 now ttl r1))
                               (resultPrefix @ success)).
               \<not> (0 \<le> s \<and> s \<le> sint now - sint ttl))))"
proof -
  let ?r' = "expireMeta_tick n1 n2 now ttl r1"
  let ?c = "sint now - sint ttl"
  let ?kf = "resultPrefix @ failed" and ?ks = "resultPrefix @ success"
  have cut: "sint (now - ttl) = ?c" by (rule sint_sub_no_overflow[OF clock window])
  have spawn: "(ExpireMeta w \<in> set (spawned (New ops st))) =
      (MetaExpiry ops \<noteq> 0 \<and> w = MetaExpiry ops)"
    by (auto simp: New_def)
  have idle: "expireMeta ttl start [] r = Waiting r"
    using window by (simp add: expireMeta_running)
  from run window have r1: "r1 = expireMeta_loop (Ticker (sint ttl)) start 0 ttl evs r"
    by (simp add: expireMeta_running)
  have loop: "expireMeta ttl start (evs @ [(n1, n2, dropped, lag)]) r = Waiting ?r'"
    using window by (simp add: expireMeta_running expireMeta_loop_snoc r1 tick)
  have batch: "PipePeriod (opts r1) \<noteq> 0 \<longrightarrow>
      ?r' = r1\<lparr>pipe := pipe r1 @ [ZRemRangeByScore ?kf 0 ?c, ZRemRangeByScore ?ks 0 ?c]\<rparr>"
    using expireMeta_tick_batch[of r1 n1 n2 now ttl] cut by simp
  have direct: "PipePeriod (opts r1) = 0 \<longrightarrow>
      pipe ?r' = pipe r1 \<and>
      trips ?r' = trips r1 @ [[ZRemRangeByScore ?kf 0 ?c], [ZRemRangeByScore ?ks 0 ?c]] \<and>
      (n1 = None \<longrightarrow>
         zset_of t (conn ?r') ?kf =
           filter (\<lambda>(m, s). \<not> (0 \<le> s \<and> s \<le> float64 ?c)) (zset_of t (conn r1) ?kf) \<and>
         (\<forall>(m, s) \<in> set (zset_of t (conn ?r') ?kf). \<not> (0 \<le> s \<and> s \<le> ?c))) \<and>
      (n2 = None \<longrightarrow>
         zset_of t (conn ?r') ?ks =
           filter (\<lambda>(m, s). \<not> (0 \<le> s \<and> s \<le> float64 ?c)) (zset_of t (conn r1) ?ks) \<and>
         (\<forall>(m, s) \<in> set (zset_of t (conn ?r') ?ks). \<not> (0 \<le> s \<and> s \<le> ?c)))"
  proof
    assume d: "PipePeriod (opts r1) = 0"
    note f = expireMeta_tick_direct[OF d, of n1 n2 now ttl, unfolded cut]
    have zf: "n1 = None \<Longrightarrow> zset_of t (conn ?r') ?kf =
        filter (\<lambda>(m, s). \<not> (float64 0 \<le> s \<and> s \<le> float64 ?c)) (zset_of t (conn r1) ?kf)"
      using keys_differ f(3)
      by (simp add: conn_do_conn zset_of_exec del: exec_cmd.simps float64_0
            split: option.splits)
    have zs: "n2 = None \<Longrightarrow> zset_of t (conn ?r') ?ks =
        filter (\<lambda>(m, s). \<not> (float64 0 \<le> s \<and> s \<le> float64 ?c)) (zset_of t (conn r1) ?ks)"
      using keys_differ[symmetric] f(3)
      by (simp add: conn_do_conn zset_of_exec del: exec_cmd.simps float64_0
            split: option.splits)
    from doubles have df: "\<forall>(m, s) \<in> set (zset_of t (conn r1) ?kf). float64 s = s"
      and ds: "\<forall>(m, s) \<in> set (zset_of t (conn r1) ?ks). float64 s = s"
      by simp_all
    show "pipe ?r' = pipe r1 \<and>
      trips ?r' = trips r1 @ [[ZRemRangeByScore ?kf 0 ?c], [ZRemRangeByScore ?ks 0 ?c]] \<and>
      (n1 = None \<longrightarrow>
         zset_of t (conn ?r') ?kf =
           filter (\<lambda>(m, s). \<not> (0 \<le> s \<and> s \<le> float64 ?c)) (zset_of t (conn r1) ?kf) \<and>
         (\<forall>(m, s) \<in> set (zset_of t (conn ?r') ?kf). \<not> (0 \<le> s \<and> s \<le> ?c))) \<and>
      (n2 = None \<longrightarrow>
         zset_of t (conn ?r') ?ks =
           filter (\<lambda>(m, s). \<not> (0 \<le> s \<and> s \<le> float64 ?c)) (zset_of t (conn r1) ?ks) \<and>
         (\<forall>(m, s) \<in> set (zset_of t (conn ?r') ?ks). \<not> (0 \<le> s \<and> s \<le> ?c)))"
      using f(1,2) zf zs purged_filter[OF df, of ?c] purged_filter[OF ds, of ?c]
      by (simp del: set_filter)
  qed
  from spawn idle loop batch direct show ?thesis by blast
qed

text \<open>
  The purger started at 1700000000000000000 with a window of one hour: its first
  tick, served when it is due, leaves of the two failed jobs the one that is younger
  than the window, and nothing of the success index, whose job has the score of the
  cutoff.
\<close>

theorem expireMeta_purges_witness:
  "\<exists>r'. expireMeta 3600000000000 1700000000000000000 [(None, None, 0, 0)] two_ages = Waiting r'
     \<and> zset_of 0 (conn r') (resultPrefix @ failed) = [(''job-new'', 1700001000000000000)]
     \<and> zset_of 0 (conn r') (resultPrefix @ success) = []
     \<and> trips r' =
         [[ZRemRangeByScore (resultPrefix @ failed) 0 1700000000000000000],
          [ZRemRangeByScore (resultPrefix @ success) 0 1700000000000000000]]"
  using expireMeta_purges[where ttl = 3600000000000 and start = 1700000000000000000
          and evs = "[]" and r = two_ages and ?r1.0 = two_ages and dropped = 0 and lag = 0
          and now = 1700003600000000000 and t = 0 and ?n1.0 = None and ?n2.0 = None]
  by (simp add: two_ages_def zset_of_alt float64_2_60 resultPrefix_def failed_def success_def
        expireMeta_def NewTicker_def)

end
